theory Spec2Isabelle
  imports Main "HOL-Library.Char_ord" "HOL-Library.List_Lexorder"
begin

section \<open>JavaScript values\<close>

text \<open>
  The envelope of \<^verbatim>\<open>src/index.ts\<close> is a plain JavaScript object; its \<^verbatim>\<open>ext\<close> field is a
  \<^verbatim>\<open>Record<string, unknown>\<close>, so any value can sit below the top level. The model covers
  plain data: \<^verbatim>\<open>undefined\<close>, \<^verbatim>\<open>null\<close>, booleans, numbers, bigints, strings, arrays and
  objects. An object is the list of its own enumerable properties in insertion order;
  reading a property takes the first entry with that name. Values with a \<^verbatim>\<open>toJSON\<close>
  method, getters, boxed primitives, functions, symbols and cyclic structures are outside
  the model.

  A string is a list of code units below 256 (\<^typ>\<open>char\<close>). A finite number is
  integer-valued (\<open>Finite i\<close>, meant for the safe-integer range, where
  \<^verbatim>\<open>Number.prototype.toString\<close> prints plain decimal digits); the three non-finite numbers
  are constructors of their own.
\<close>

datatype jsnumber = Finite int | NaN | Infinity | NegInfinity

datatype jsvalue =
    JUndefined
  | JNull
  | JBool bool
  | JNumber jsnumber
  | JBigInt int
  | JString string
  | JArray "jsvalue list"
  | JObject "(string \<times> jsvalue) list"

text \<open>What the code can throw: a \<^verbatim>\<open>TypeError\<close> of the runtime, a rejection of the signing
  call of the JOSE library, and the \<^verbatim>\<open>Error('UAMP signature validation failed')\<close> of
  \<^verbatim>\<open>verifyEnvelopeSignature\<close>.\<close>

datatype error = TypeError | SignRejected | ValidationFailed

type_synonym props = "(string \<times> jsvalue) list"

definition Get :: "props \<Rightarrow> string \<Rightarrow> jsvalue" where
  "Get ps k = (case map_of ps k of None \<Rightarrow> JUndefined | Some v \<Rightarrow> v)"

section \<open>Text of numbers and strings\<close>

definition digit_char :: "nat \<Rightarrow> char" where
  "digit_char d = char_of (48 + d)"

fun digits :: "nat \<Rightarrow> string" where
  "digits n = (if n < 10 then [digit_char n] else digits (n div 10) @ [digit_char (n mod 10)])"

declare digits.simps [simp del]

definition number_to_string :: "int \<Rightarrow> string" where
  "number_to_string i = (if i < 0 then CHR ''-'' # digits (nat (- i)) else digits (nat i))"

definition hex_char :: "nat \<Rightarrow> char" where
  "hex_char d = (if d < 10 then char_of (48 + d) else char_of (87 + d))"

definition UnicodeEscape :: "char \<Rightarrow> string" where
  "UnicodeEscape c =
     [CHR 0x5C, CHR ''u'', CHR ''0'', CHR ''0'',
      hex_char ((of_char c :: nat) div 16), hex_char ((of_char c :: nat) mod 16)]"

text \<open>\<^verbatim>\<open>QuoteJSONString\<close> of ECMA-262: the seven characters with a short escape, then the
  other control characters as \<^verbatim>\<open>\u00XX\<close>, everything else as it is.\<close>

definition quote_char :: "char \<Rightarrow> string" where
  "quote_char c =
     (if c = CHR 0x08 then [CHR 0x5C, CHR ''b'']
      else if c = CHR 0x09 then [CHR 0x5C, CHR ''t'']
      else if c = CHR 0x0A then [CHR 0x5C, CHR ''n'']
      else if c = CHR 0x0C then [CHR 0x5C, CHR ''f'']
      else if c = CHR 0x0D then [CHR 0x5C, CHR ''r'']
      else if c = CHR 0x22 then [CHR 0x5C, CHR 0x22]
      else if c = CHR 0x5C then [CHR 0x5C, CHR 0x5C]
      else if (of_char c :: nat) < 32 then UnicodeEscape c
      else [c])"

definition QuoteJSONString :: "string \<Rightarrow> string" where
  "QuoteJSONString s = CHR 0x22 # concat (map quote_char s) @ [CHR 0x22]"

fun join_comma :: "string list \<Rightarrow> string" where
  "join_comma [] = []"
| "join_comma [x] = x"
| "join_comma (x # y # ys) = x @ CHR '','' # join_comma (y # ys)"

section \<open>\<^verbatim>\<open>JSON.stringify\<close> with an array replacer\<close>

text \<open>\<open>collect f xs\<close> runs \<open>f\<close> over \<open>xs\<close> from left to right and stops at the first throw.\<close>

fun collect :: "('a \<Rightarrow> error + 'b) \<Rightarrow> 'a list \<Rightarrow> error + 'b list" where
  "collect f [] = Inr []"
| "collect f (x # xs) =
     (case f x of
        Inl e \<Rightarrow> Inl e
      | Inr y \<Rightarrow> (case collect f xs of Inl e \<Rightarrow> Inl e | Inr ys \<Rightarrow> Inr (y # ys)))"

lemma collect_cong [fundef_cong]:
  "xs = ys \<Longrightarrow> (\<And>x. x \<in> set ys \<Longrightarrow> f x = g x) \<Longrightarrow> collect f xs = collect g ys"
  by (induction ys arbitrary: xs) (auto split: sum.splits)

lemma size_Get: "size (Get ps k) < Suc (size_list (size_prod (\<lambda>_. 0) size) ps)"
proof (cases "map_of ps k")
  case None
  then show ?thesis by (simp add: Get_def)
next
  case (Some v)
  then have "(k, v) \<in> set ps" by (rule map_of_SomeD)
  then have "size_prod (\<lambda>_. 0) size (k, v) \<le> size_list (size_prod (\<lambda>_. 0) size) ps"
    by (simp add: size_list_estimation')
  with Some show ?thesis by (simp add: Get_def)
qed

text \<open>
  \<^verbatim>\<open>SerializeJSONProperty\<close> of ECMA-262 with the property list \<open>K\<close> of the replacer array
  and no indentation. The result \<open>None\<close> is the specification's \<^verbatim>\<open>undefined\<close>: such a
  member is left out of an object and printed as \<^verbatim>\<open>null\<close> in an array. An object prints,
  in the order of \<open>K\<close>, the members named in \<open>K\<close>; the same \<open>K\<close> is used at every depth.
\<close>

function SerializeJSONProperty :: "string list \<Rightarrow> jsvalue \<Rightarrow> error + string option" where
  "SerializeJSONProperty K JUndefined = Inr None"
| "SerializeJSONProperty K JNull = Inr (Some ''null'')"
| "SerializeJSONProperty K (JBool b) = Inr (Some (if b then ''true'' else ''false''))"
| "SerializeJSONProperty K (JString s) = Inr (Some (QuoteJSONString s))"
| "SerializeJSONProperty K (JNumber n) =
     Inr (Some (case n of Finite i \<Rightarrow> number_to_string i | _ \<Rightarrow> ''null''))"
| "SerializeJSONProperty K (JBigInt i) = Inl TypeError"
| "SerializeJSONProperty K (JArray xs) =
     (case collect (\<lambda>x. SerializeJSONProperty K x) xs of
        Inl e \<Rightarrow> Inl e
      | Inr parts \<Rightarrow>
          Inr (Some (''['' @ join_comma (map (\<lambda>p. case p of None \<Rightarrow> ''null'' | Some s \<Rightarrow> s) parts)
                     @ '']'')))"
| "SerializeJSONProperty K (JObject ps) =
     (case collect (\<lambda>P. case SerializeJSONProperty K (Get ps P) of
                           Inl e \<Rightarrow> Inl e
                         | Inr None \<Rightarrow> Inr []
                         | Inr (Some s) \<Rightarrow> Inr [QuoteJSONString P @ '':'' @ s]) K of
        Inl e \<Rightarrow> Inl e
      | Inr members \<Rightarrow> Inr (Some (''{'' @ join_comma (concat members) @ ''}'')))"
  by pat_completeness auto

termination
proof (relation "measure (\<lambda>(K, v). size v)")
  show "wf (measure (\<lambda>(K, v). size v))" by simp
next
  fix K :: "string list" and xs :: "jsvalue list" and x
  assume "x \<in> set xs"
  then have "size x \<le> size_list size xs" by (simp add: size_list_estimation')
  then show "((K, x), K, JArray xs) \<in> measure (\<lambda>(K, v). size v)" by simp
next
  fix K :: "string list" and ps :: props and P
  show "((K, Get ps P), K, JObject ps) \<in> measure (\<lambda>(K, v). size v)"
    using size_Get [of ps P] by simp
qed

text \<open>\<^verbatim>\<open>JSON.stringify(value, replacer)\<close> for an array of strings as replacer: the property
  list takes each element of the array unless it is already in the list.\<close>

fun property_list :: "string list \<Rightarrow> string list" where
  "property_list [] = []"
| "property_list (x # xs) = x # property_list (removeAll x xs)"

definition JSON_stringify :: "jsvalue \<Rightarrow> string list \<Rightarrow> error + string option" where
  "JSON_stringify v replacer = SerializeJSONProperty (property_list replacer) v"

text \<open>\<^verbatim>\<open>Object.keys\<close>: the names of the own enumerable properties. \<^verbatim>\<open>null\<close> and
  \<^verbatim>\<open>undefined\<close> throw; an array and a string have their indices; the other primitives
  have none. (The order in which an engine lists the names does not matter below, where
  the list is sorted at once.)\<close>

definition Object_keys :: "jsvalue \<Rightarrow> error + string list" where
  "Object_keys v =
     (case v of
        JUndefined \<Rightarrow> Inl TypeError
      | JNull \<Rightarrow> Inl TypeError
      | JObject ps \<Rightarrow> Inr (map fst ps)
      | JArray xs \<Rightarrow> Inr (map digits [0..<length xs])
      | JString s \<Rightarrow> Inr (map digits [0..<length s])
      | _ \<Rightarrow> Inr [])"

text \<open>\<^verbatim>\<open>Buffer.from(string)\<close>: the UTF-8 bytes of the string (one byte below 128, two bytes
  from 128 to 255).\<close>

definition utf8_char :: "char \<Rightarrow> string" where
  "utf8_char c =
     (if (of_char c :: nat) < 128 then [c]
      else [char_of (192 + (of_char c :: nat) div 64), char_of (128 + (of_char c :: nat) mod 64)])"

definition Buffer_from :: "string \<Rightarrow> string" where
  "Buffer_from s = concat (map utf8_char s)"

section \<open>The crypto helpers of \<^verbatim>\<open>src/index.ts\<close>\<close>

text \<open>
  \<^verbatim>\<open>return Buffer.from(JSON.stringify(obj, Object.keys(obj).sort()));\<close>

  \<^verbatim>\<open>Array.prototype.sort\<close> without a comparator orders strings by their code units, which
  is the lexicographic order of \<^typ>\<open>string\<close>. \<^verbatim>\<open>Buffer.from(undefined)\<close> throws.
\<close>

definition canonicalJson :: "jsvalue \<Rightarrow> error + string" where
  "canonicalJson obj =
     (case Object_keys obj of
        Inl e \<Rightarrow> Inl e
      | Inr ks \<Rightarrow>
          (case JSON_stringify obj (sort ks) of
             Inl e \<Rightarrow> Inl e
           | Inr None \<Rightarrow> Inl TypeError
           | Inr (Some s) \<Rightarrow> Inr (Buffer_from s)))"

text \<open>
  The digest and the JSON Web Signature operations come from Node's \<^verbatim>\<open>crypto\<close> and from
  the \<^verbatim>\<open>jose\<close> package; they are parameters of the model. \<open>sha256_hex b\<close> stands for
  \<^verbatim>\<open>createHash('sha256').update(b).digest('hex')\<close>, \<open>SignJWT P payload alg key\<close> for
  \<^verbatim>\<open>new SignJWT(payload).setProtectedHeader({alg}).sign(key)\<close> and
  \<open>jwtVerify P token key algs\<close> for the payload of
  \<^verbatim>\<open>jwtVerify(token, key, {algorithms: algs})\<close>; \<open>None\<close> is a rejected promise. The token
  handed to \<open>jwtVerify\<close> is whatever value the envelope holds under \<^verbatim>\<open>sig\<close>.
\<close>

record 'k provider =
  sha256_hex :: "string \<Rightarrow> string"
  SignJWT :: "props \<Rightarrow> string \<Rightarrow> 'k \<Rightarrow> string option"
  jwtVerify :: "jsvalue \<Rightarrow> 'k \<Rightarrow> string list \<Rightarrow> props option"

text \<open>
  \<^verbatim>\<open>const sha256 = createHash('sha256').update(canonicalJson(env)).digest('hex');\<close>
  \<^verbatim>\<open>return new SignJWT({ sha256 }).setProtectedHeader({ alg: 'ES256' }).sign(key);\<close>
\<close>

definition signEnvelope :: "'k provider \<Rightarrow> props \<Rightarrow> 'k \<Rightarrow> error + string" where
  "signEnvelope P env key =
     (case canonicalJson (JObject env) of
        Inl e \<Rightarrow> Inl e
      | Inr bytes \<Rightarrow>
          (case SignJWT P [(''sha256'', JString (sha256_hex P bytes))] ''ES256'' key of
             None \<Rightarrow> Inl SignRejected
           | Some token \<Rightarrow> Inr token))"

text \<open>\<^verbatim>\<open>{ ...envNoSig, sig }\<close>: a copy of the object with the property set; a property that is
  already there keeps its place.\<close>

fun set_prop :: "string \<Rightarrow> jsvalue \<Rightarrow> props \<Rightarrow> props" where
  "set_prop k v [] = [(k, v)]"
| "set_prop k v (p # ps) = (if fst p = k then (k, v) # ps else p # set_prop k v ps)"

text \<open>\<^verbatim>\<open>const { sig, ...unsigned } = env;\<close>: the rest object has every property but
  \<^verbatim>\<open>sig\<close>, in the same order.\<close>

definition unsigned :: "props \<Rightarrow> props" where
  "unsigned env = filter (\<lambda>p. fst p \<noteq> ''sig'') env"

definition allowed_algorithms :: "string list" where
  "allowed_algorithms = [''ES256'', ''EdDSA'', ''RS256'']"

text \<open>
  The loop over the candidate keys. A rejection of \<^verbatim>\<open>jwtVerify\<close> is caught and the next key
  is tried; a payload whose \<^verbatim>\<open>sha256\<close> is not strictly equal to the expected digest falls
  through to the next key as well. The first component of the result lists the keys that
  were handed to \<^verbatim>\<open>jwtVerify\<close>, in the order of the calls.
\<close>

fun try_keys :: "'k provider \<Rightarrow> jsvalue \<Rightarrow> string \<Rightarrow> 'k list \<Rightarrow> 'k list \<times> (error + unit)" where
  "try_keys P sig expected [] = ([], Inl ValidationFailed)"
| "try_keys P sig expected (k # ks) =
     (case jwtVerify P sig k allowed_algorithms of
        None \<Rightarrow> apfst ((#) k) (try_keys P sig expected ks)
      | Some payload \<Rightarrow>
          if Get payload ''sha256'' = JString expected then ([k], Inr ())
          else apfst ((#) k) (try_keys P sig expected ks))"

definition verifyEnvelopeSignature_trace ::
  "'k provider \<Rightarrow> props \<Rightarrow> 'k list \<Rightarrow> 'k list \<times> (error + unit)" where
  "verifyEnvelopeSignature_trace P env keys =
     (case canonicalJson (JObject (unsigned env)) of
        Inl e \<Rightarrow> ([], Inl e)
      | Inr bytes \<Rightarrow> try_keys P (Get env ''sig'') (sha256_hex P bytes) keys)"

definition verifyEnvelopeSignature :: "'k provider \<Rightarrow> props \<Rightarrow> 'k list \<Rightarrow> error + unit" where
  "verifyEnvelopeSignature P env keys = snd (verifyEnvelopeSignature_trace P env keys)"

definition keys_tried :: "'k provider \<Rightarrow> props \<Rightarrow> 'k list \<Rightarrow> 'k list" where
  "keys_tried P env keys = fst (verifyEnvelopeSignature_trace P env keys)"

section \<open>Notions used in the statements\<close>

text \<open>A key passes both checks: the token validates under it within the allow-list, and
  the digest in the payload is the expected one.\<close>

definition accepts :: "'k provider \<Rightarrow> jsvalue \<Rightarrow> string \<Rightarrow> 'k \<Rightarrow> bool" where
  "accepts P sig expected k =
     (case jwtVerify P sig k allowed_algorithms of
        None \<Rightarrow> False
      | Some payload \<Rightarrow> Get payload ''sha256'' = JString expected)"

text \<open>A valid key pair: what the private key signs under an algorithm validates under the
  public key, whenever that algorithm is among the accepted ones, and yields the signed
  payload.\<close>

definition key_pair_ok :: "'k provider \<Rightarrow> 'k \<Rightarrow> 'k \<Rightarrow> bool" where
  "key_pair_ok P priv pub \<longleftrightarrow>
     (\<forall>payload alg token algs.
        SignJWT P payload alg priv = Some token \<longrightarrow> alg \<in> set algs \<longrightarrow>
        jwtVerify P (JString token) pub algs = Some payload)"

text \<open>The provider honours the \<^verbatim>\<open>algorithms\<close> option: a token validates only if the
  algorithm it declares (read by \<open>alg_of\<close>) is one of those passed.\<close>

definition honours_allow_list :: "'k provider \<Rightarrow> (jsvalue \<Rightarrow> string option) \<Rightarrow> bool" where
  "honours_allow_list P alg_of \<longleftrightarrow>
     (\<forall>token k algs payload.
        jwtVerify P token k algs = Some payload \<longrightarrow> (\<exists>a \<in> set algs. alg_of token = Some a))"

text \<open>The provider rejects a token that is not a string (\<^verbatim>\<open>jose\<close> throws
  \<^verbatim>\<open>JWSInvalid\<close> for it).\<close>

definition rejects_undefined :: "'k provider \<Rightarrow> bool" where
  "rejects_undefined P \<longleftrightarrow> (\<forall>k algs. jwtVerify P JUndefined k algs = None)"

subsection \<open>A toy provider for concrete runs\<close>

text \<open>
  Key pair \<open>c\<close> (a character) is \<open>Private c\<close> and \<open>Public c\<close>. Only a payload of the
  one claim \<^verbatim>\<open>sha256\<close> is signed; a token is the five letters of the algorithm, the
  character of the key pair, and the digest. The digest of a byte string is the byte
  string itself, so that two inputs have the same digest only if they are equal.
\<close>

datatype toy_key = Private char | Public char

definition toy_sign :: "props \<Rightarrow> string \<Rightarrow> toy_key \<Rightarrow> string option" where
  "toy_sign payload alg key =
     (case (key, payload) of
        (Private n, [(c, JString d)]) \<Rightarrow>
          if c = ''sha256'' \<and> length alg = 5 then Some (alg @ n # d) else None
      | _ \<Rightarrow> None)"

definition toy_verify :: "jsvalue \<Rightarrow> toy_key \<Rightarrow> string list \<Rightarrow> props option" where
  "toy_verify token key algs =
     (case (token, key) of
        (JString t, Public n) \<Rightarrow>
          if 6 \<le> length t \<and> take 5 t \<in> set algs \<and> t ! 5 = n
          then Some [(''sha256'', JString (drop 6 t))] else None
      | _ \<Rightarrow> None)"

definition toy_alg :: "jsvalue \<Rightarrow> string option" where
  "toy_alg token =
     (case token of
        JString t \<Rightarrow> if 5 \<le> length t then Some (take 5 t) else None
      | _ \<Rightarrow> None)"

definition toy :: "toy_key provider" where
  "toy = \<lparr> sha256_hex = (\<lambda>b. b), SignJWT = toy_sign, jwtVerify = toy_verify \<rparr>"

text \<open>The envelope of the concrete scenario: \<^verbatim>\<open>{id: urn:uuid:A, ts: T, from: alice,
  to: [bob], intent: ask, body: {type: text/plain, content: "ping"}}\<close>, with the content
  as a parameter.\<close>

definition scenario :: "string \<Rightarrow> props" where
  "scenario content =
     [(''id'', JString ''urn:uuid:A''), (''ts'', JString ''T''), (''from'', JString ''alice''),
      (''to'', JArray [JString ''bob'']), (''intent'', JString ''ask''),
      (''body'', JObject [(''type'', JString ''text/plain''), (''content'', JString content)])]"

definition scenario_empty_body :: props where
  "scenario_empty_body =
     [(''id'', JString ''urn:uuid:A''), (''ts'', JString ''T''), (''from'', JString ''alice''),
      (''to'', JArray [JString ''bob'']), (''intent'', JString ''ask''), (''body'', JObject [])]"

text \<open>What the toy key pair \<open>1\<close> signs for the scenario.\<close>

definition ping_token :: string where
  \<open>ping_token =
     ''ES2561{"body":{},"from":"alice","id":"urn:uuid:A","intent":"ask","to":["bob"],"ts":"T"}''\<close>

subsection \<open>Pruning by a set of names\<close>

text \<open>\<open>keep_listed S v\<close> removes, from every object inside \<open>v\<close> and at every depth, the
  properties whose name is not in \<open>S\<close>; \<open>listed_only env\<close> does so below the top level of an
  envelope, with the envelope's own property names as \<open>S\<close>. \<open>property_names v\<close> collects
  the names of all properties of all objects inside \<open>v\<close>.\<close>

fun keep_listed :: "string set \<Rightarrow> jsvalue \<Rightarrow> jsvalue" where
  "keep_listed S (JArray xs) = JArray (map (keep_listed S) xs)"
| "keep_listed S (JObject ps) =
     JObject (map (\<lambda>p. (fst p, keep_listed S (snd p))) (filter (\<lambda>p. fst p \<in> S) ps))"
| "keep_listed S v = v"

definition listed_only :: "props \<Rightarrow> props" where
  "listed_only env = map (\<lambda>p. (fst p, keep_listed (fst ` set env) (snd p))) env"

fun property_names :: "jsvalue \<Rightarrow> string set" where
  "property_names (JArray xs) = (\<Union>x \<in> set xs. property_names x)"
| "property_names (JObject ps) = fst ` set ps \<union> (\<Union>p \<in> set ps. property_names (snd p))"
| "property_names v = {}"

subsection \<open>Values that hold a bigint\<close>

fun has_bigint :: "jsvalue \<Rightarrow> bool" where
  "has_bigint (JBigInt i) = True"
| "has_bigint (JArray xs) = list_ex has_bigint xs"
| "has_bigint (JObject ps) = list_ex (\<lambda>p. has_bigint (snd p)) ps"
| "has_bigint v = False"

subsection \<open>The same value up to the order of properties\<close>

text \<open>
  \<open>same_content v w\<close>: the two values are equal once the order in which the properties of
  each object were inserted is forgotten, at every depth. Arrays are compared element by
  element, in order; objects have the same property names and, under each name, values
  with the same content.
\<close>

function same_content :: "jsvalue \<Rightarrow> jsvalue \<Rightarrow> bool" where
  "same_content (JArray xs) w =
     (case w of JArray ys \<Rightarrow> list_all2 same_content xs ys | _ \<Rightarrow> False)"
| "same_content (JObject ps) w =
     (case w of
        JObject qs \<Rightarrow>
          fst ` set ps = fst ` set qs \<and>
          (\<forall>k \<in> fst ` set ps. same_content (Get ps k) (Get qs k))
      | _ \<Rightarrow> False)"
| "same_content JUndefined w = (w = JUndefined)"
| "same_content JNull w = (w = JNull)"
| "same_content (JBool b) w = (w = JBool b)"
| "same_content (JNumber n) w = (w = JNumber n)"
| "same_content (JBigInt i) w = (w = JBigInt i)"
| "same_content (JString s) w = (w = JString s)"
  by pat_completeness auto

termination
proof (relation "measure (\<lambda>(v, w). size v)")
  show "wf (measure (\<lambda>(v, w). size v))" by simp
next
  fix xs :: "jsvalue list" and w ys x y
  assume "x \<in> set xs"
  then have "size x \<le> size_list size xs" by (simp add: size_list_estimation')
  then show "((x, y), JArray xs, w) \<in> measure (\<lambda>(v, w). size v)" by simp
next
  fix ps :: props and w qs k
  show "((Get ps k, Get qs k), JObject ps, w) \<in> measure (\<lambda>(v, w). size v)"
    using size_Get [of ps k] by simp
qed

text \<open>An envelope built twice, with the fields and the keys of \<^verbatim>\<open>ext\<close> in different
  orders.\<close>

definition ordered_a :: jsvalue where
  "ordered_a = JObject [(''id'', JString ''a''), (''ts'', JNumber (Finite 7)),
      (''ext'', JObject [(''id'', JBool True), (''ts'', JArray [JNull])])]"

definition ordered_b :: jsvalue where
  "ordered_b = JObject [(''ext'', JObject [(''ts'', JArray [JNull]), (''id'', JBool True)]),
      (''ts'', JNumber (Finite 7)), (''id'', JString ''a'')]"

section \<open>Auxiliary facts\<close>

subsection \<open>Running a function over a list\<close>

lemma collect_map: "collect f (map g xs) = collect (\<lambda>x. f (g x)) xs"
  by (induction xs) (auto split: sum.splits)

lemma collect_rel:
  "list_all2 (\<lambda>x y. f x = g y) xs ys \<Longrightarrow> collect f xs = collect g ys"
  by (induction xs ys rule: list_all2_induct) (auto split: sum.splits)

lemma collect_total:
  "(\<And>x. x \<in> set xs \<Longrightarrow> \<exists>y. f x = Inr y) \<Longrightarrow> \<exists>ys. collect f xs = Inr ys"
  by (induction xs) (fastforce split: sum.splits)+

lemma collect_error: "collect f xs = Inl e \<Longrightarrow> \<exists>x \<in> set xs. f x = Inl e"
  by (induction xs) (auto split: sum.splits)

subsection \<open>Properties of objects\<close>

lemma Get_absent: "k \<notin> fst ` set ps \<Longrightarrow> Get ps k = JUndefined"
proof -
  assume "k \<notin> fst ` set ps"
  then have "map_of ps k = None" by (simp add: map_of_eq_None_iff)
  then show ?thesis by (simp add: Get_def)
qed

lemma Get_set_prop: "Get (set_prop k v env) k = v"
  by (induction env) (auto simp: Get_def)

lemma unsigned_id: "''sig'' \<notin> fst ` set env \<Longrightarrow> unsigned env = env"
  by (induction env) (auto simp: unsigned_def)

lemma unsigned_set_prop:
  "''sig'' \<notin> fst ` set env \<Longrightarrow> unsigned (set_prop ''sig'' v env) = env"
  by (induction env) (auto simp: unsigned_def)

lemma Get_keep:
  "k \<in> S \<Longrightarrow> h JUndefined = JUndefined \<Longrightarrow>
   Get (map (\<lambda>p. (fst p, h (snd p))) (filter (\<lambda>p. fst p \<in> S) ps)) k = h (Get ps k)"
  by (induction ps) (auto simp: Get_def)

lemma set_property_list [simp]: "set (property_list xs) = set xs"
  by (induction xs rule: property_list.induct) auto

lemma distinct_property_list [simp]: "distinct (property_list xs)"
  by (induction xs rule: property_list.induct) auto

lemma sorted_property_list: "sorted xs \<Longrightarrow> sorted (property_list xs)"
proof (induction xs rule: property_list.induct)
  case 1
  show ?case by simp
next
  case (2 x xs)
  from 2(2) have "sorted (removeAll x xs)"
    by (simp add: removeAll_filter_not_eq sorted_wrt_filter)
  with 2 show ?case by simp
qed

lemma property_list_sort_set:
  "set xs = set ys \<Longrightarrow> property_list (sort xs) = property_list (sort ys)"
  by (rule sorted_distinct_set_unique) (simp_all add: sorted_property_list)

subsection \<open>The serializer\<close>

text \<open>Pruning by a set of names that covers the property list does not change the text.\<close>

lemma serialize_keep_listed:
  "set K \<subseteq> S \<Longrightarrow> SerializeJSONProperty K (keep_listed S v) = SerializeJSONProperty K v"
proof (induction K v rule: SerializeJSONProperty.induct)
  case (7 K xs)
  then show ?case by (simp add: collect_map cong: collect_cong)
next
  case (8 K ps)
  let ?member = "\<lambda>qs P. case SerializeJSONProperty K (Get qs P) of
                           Inl e \<Rightarrow> Inl e
                         | Inr None \<Rightarrow> Inr []
                         | Inr (Some s) \<Rightarrow> Inr [QuoteJSONString P @ '':'' @ s]"
  let ?kept = "map (\<lambda>p. (fst p, keep_listed S (snd p))) (filter (\<lambda>p. fst p \<in> S) ps)"
  have "collect (?member ?kept) K = collect (?member ps) K"
  proof (rule collect_cong [OF refl])
    fix P assume P: "P \<in> set K"
    with 8 have "P \<in> S" by auto
    then have "Get ?kept P = keep_listed S (Get ps P)"
      by (rule Get_keep) simp
    with 8 P show "?member ?kept P = ?member ps P" by simp
  qed
  then show ?case by simp
qed simp_all

lemma property_names_keep_listed: "property_names (keep_listed S v) \<subseteq> S"
  by (induction S v rule: keep_listed.induct) auto

text \<open>Values with the same content have the same text under every property list.\<close>

lemma serialize_same_content:
  "same_content v w \<Longrightarrow> SerializeJSONProperty K v = SerializeJSONProperty K w"
proof (induction K v arbitrary: w rule: SerializeJSONProperty.induct)
  case (7 K xs)
  then obtain ys where w: "w = JArray ys" and rel: "list_all2 same_content xs ys"
    by (cases w) auto
  from rel have "list_all2 (\<lambda>x y. SerializeJSONProperty K x = SerializeJSONProperty K y) xs ys"
    by (rule list.rel_mono_strong) (use 7 in blast)
  then have "collect (SerializeJSONProperty K) xs = collect (SerializeJSONProperty K) ys"
    by (rule collect_rel)
  with w show ?case by simp
next
  case (8 K ps)
  then obtain qs where w: "w = JObject qs" and ks: "fst ` set ps = fst ` set qs"
    and vs: "\<forall>k \<in> fst ` set ps. same_content (Get ps k) (Get qs k)"
    by (cases w) (simp_all del: ball_simps)
  have "SerializeJSONProperty K (Get ps P) = SerializeJSONProperty K (Get qs P)"
    if "P \<in> set K" for P
  proof (cases "P \<in> fst ` set ps")
    case True
    with vs have "same_content (Get ps P) (Get qs P)" by blast
    with that 8 show ?thesis by blast
  next
    case False
    with ks show ?thesis by (simp add: Get_absent)
  qed
  then show ?case unfolding w by (simp cong: collect_cong)
qed auto

lemma same_content_refl: "same_content v v"
proof (induction v)
  case (JArray xs)
  then show ?case by (simp add: list.rel_refl_strong)
next
  case (JObject ps)
  have "same_content (Get ps k) (Get ps k)" if "k \<in> fst ` set ps" for k
  proof (cases "map_of ps k")
    case None
    then show ?thesis by (simp add: Get_def)
  next
    case (Some v)
    then have "(k, v) \<in> set ps" by (rule map_of_SomeD)
    with JObject have "same_content v v" by fastforce
    with Some show ?thesis by (simp add: Get_def)
  qed
  then show ?case by simp
qed simp_all

text \<open>In particular, listing the properties of an object in another order gives a value
  with the same content.\<close>

lemma same_content_reordered:
  assumes "distinct (map fst ps)" "distinct (map fst qs)" "set ps = set qs"
  shows "same_content (JObject ps) (JObject qs)"
proof -
  from assms have "map_of ps = map_of qs" by (simp add: map_of_inject_set)
  then have "Get ps k = Get qs k" for k by (simp add: Get_def)
  with assms(3) show ?thesis by (simp add: same_content_refl)
qed

text \<open>The serializer throws only on a bigint, and only a \<^verbatim>\<open>TypeError\<close>.\<close>

lemma serialize_total:
  "\<not> has_bigint v \<Longrightarrow> \<exists>r. SerializeJSONProperty K v = Inr r"
proof (induction K v rule: SerializeJSONProperty.induct)
  case (7 K xs)
  have "\<exists>ys. collect (SerializeJSONProperty K) xs = Inr ys"
    by (rule collect_total) (use 7 in \<open>auto simp: list_ex_iff\<close>)
  then show ?case by auto
next
  case (8 K ps)
  let ?member = "\<lambda>P. case SerializeJSONProperty K (Get ps P) of
                        Inl e \<Rightarrow> Inl e
                      | Inr None \<Rightarrow> Inr []
                      | Inr (Some s) \<Rightarrow> Inr [QuoteJSONString P @ '':'' @ s]"
  have nb: "\<not> has_bigint (Get ps P)" for P
    using 8(2) by (auto simp: Get_def list_ex_iff split: option.splits dest!: map_of_SomeD)
  have "\<exists>ys. collect ?member K = Inr ys"
  proof (rule collect_total)
    fix P assume "P \<in> set K"
    with 8(1) nb obtain r where "SerializeJSONProperty K (Get ps P) = Inr r" by blast
    then show "\<exists>y. ?member P = Inr y" by (cases r) auto
  qed
  then show ?case by auto
qed auto

lemma serialize_error: "SerializeJSONProperty K v = Inl e \<Longrightarrow> e = TypeError"
proof (induction K v rule: SerializeJSONProperty.induct)
  case (7 K xs)
  then show ?case by (auto split: sum.splits dest!: collect_error)
next
  case (8 K ps)
  then show ?case by (auto split: sum.splits option.splits dest!: collect_error)
qed auto

subsection \<open>The loop over the candidate keys\<close>

lemma try_keys_Cons:
  "try_keys P sig expected (k # ks) =
     (if accepts P sig expected k then ([k], Inr ())
      else apfst ((#) k) (try_keys P sig expected ks))"
  by (simp add: accepts_def split: option.splits)

lemma try_keys_first_match:
  "try_keys P sig expected keys =
     (case dropWhile (\<lambda>k. \<not> accepts P sig expected k) keys of
        [] \<Rightarrow> (keys, Inl ValidationFailed)
      | k # _ \<Rightarrow> (takeWhile (\<lambda>k. \<not> accepts P sig expected k) keys @ [k], Inr ()))"
proof (induction keys)
  case Nil
  show ?case by simp
next
  case (Cons a keys)
  show ?case
  proof (cases "accepts P sig expected a")
    case True
    then show ?thesis by (simp add: try_keys_Cons del: try_keys.simps(2))
  next
    case False
    let ?p = "\<lambda>k. \<not> accepts P sig expected k"
    from False have step:
      "try_keys P sig expected (a # keys) = apfst ((#) a) (try_keys P sig expected keys)"
      by (simp add: try_keys_Cons del: try_keys.simps(2))
    from False have dw: "dropWhile ?p (a # keys) = dropWhile ?p keys"
      and tw: "takeWhile ?p (a # keys) = a # takeWhile ?p keys"
      by simp_all
    note IH = Cons.IH
    show ?thesis
    proof (cases "dropWhile ?p keys")
      case Nil
      show ?thesis unfolding step dw tw IH Nil by simp
    next
      case (Cons k rest)
      show ?thesis unfolding step dw tw IH Cons by simp
    qed
  qed
qed

lemma try_keys_accepting:
  "k \<in> set keys \<Longrightarrow> accepts P sig expected k \<Longrightarrow> snd (try_keys P sig expected keys) = Inr ()"
  by (induction keys) (auto simp: try_keys_Cons simp del: try_keys.simps(2))

lemma try_keys_none:
  "\<forall>k \<in> set keys. \<not> accepts P sig expected k \<Longrightarrow>
   try_keys P sig expected keys = (keys, Inl ValidationFailed)"
  by (induction keys) (auto simp: try_keys_Cons simp del: try_keys.simps(2))

subsection \<open>The toy provider and the scenario\<close>

lemma toy_pair: "key_pair_ok toy (Private n) (Public n)"
  by (auto simp: key_pair_ok_def toy_def toy_sign_def toy_verify_def nth_append
      split: list.splits jsvalue.splits if_splits)

lemma toy_honours: "honours_allow_list toy toy_alg"
  by (auto simp: honours_allow_list_def toy_def toy_verify_def toy_alg_def
      split: jsvalue.splits toy_key.splits if_splits)

lemma toy_rejects: "rejects_undefined toy"
  by (simp add: rejects_undefined_def toy_def toy_verify_def)

lemma canonical_scenario:
  \<open>canonicalJson (JObject (scenario content))
     = Inr ''{"body":{},"from":"alice","id":"urn:uuid:A","intent":"ask","to":["bob"],"ts":"T"}''\<close>
  by (simp add: scenario_def canonicalJson_def Object_keys_def JSON_stringify_def Get_def
      Buffer_from_def utf8_char_def QuoteJSONString_def quote_char_def)

lemma sign_ping: "signEnvelope toy (scenario ''ping'') (Private (CHR ''1'')) = Inr ping_token"
  by (simp add: signEnvelope_def canonical_scenario toy_def toy_sign_def ping_token_def)

section \<open>The claims\<close>

subsection \<open>C1: recursive canonicalization\<close>

text \<open>
  C1 says that \<^verbatim>\<open>canonicalJson\<close> serializes nested objects, the body among them, at every
  level, so that the canonical bytes determine the whole nested structure. The code does
  not: the sorted top-level names are passed as the replacer array, which also selects the
  properties printed inside nested objects. For the envelope of the scenario, whatever the
  content of its body, the canonical bytes are those of the envelope with an empty body:
  \<^verbatim>\<open>type\<close> and \<^verbatim>\<open>content\<close> are not top-level names, and the body is printed as \<^verbatim>\<open>{}\<close>.
\<close>

theorem nested_body_dropped:
  \<open>canonicalJson (JObject (scenario content))
     = Inr ''{"body":{},"from":"alice","id":"urn:uuid:A","intent":"ask","to":["bob"],"ts":"T"}''
   \<and> canonicalJson (JObject (scenario content)) = canonicalJson (JObject scenario_empty_body)\<close>
proof -
  have "canonicalJson (JObject scenario_empty_body) = canonicalJson (JObject (scenario content))"
    unfolding canonical_scenario
    by (simp add: scenario_empty_body_def canonicalJson_def Object_keys_def JSON_stringify_def
        Get_def Buffer_from_def utf8_char_def QuoteJSONString_def quote_char_def)
  then show ?thesis by (simp add: canonical_scenario)
qed

subsection \<open>C2: tamper detection\<close>

text \<open>
  C2 says that verification fails after any mutation of a signed envelope outside the
  signature, for instance of \<^verbatim>\<open>body.content\<close>. The code accepts such a mutation: with any
  provider, any token and any candidate keys, the scenario's envelope with the content
  changed from \<^verbatim>\<open>ping\<close> to \<^verbatim>\<open>pong\<close> verifies exactly as the original does; and with the
  toy provider, whose digest has no collisions, the token signed for \<^verbatim>\<open>ping\<close> verifies
  on the envelope that says \<^verbatim>\<open>pong\<close>.
\<close>

theorem tampered_body_verifies:
  "verifyEnvelopeSignature P (set_prop ''sig'' s (scenario ''pong'')) keys
     = verifyEnvelopeSignature P (set_prop ''sig'' s (scenario ''ping'')) keys
   \<and> signEnvelope toy (scenario ''ping'') (Private (CHR ''1'')) = Inr ping_token
   \<and> verifyEnvelopeSignature toy (set_prop ''sig'' (JString ping_token) (scenario ''pong''))
        [Public (CHR ''1'')] = Inr ()"
proof -
  have u: "unsigned (set_prop ''sig'' t (scenario c)) = scenario c" for c t
    by (rule unsigned_set_prop) (simp add: scenario_def)
  have a: "verifyEnvelopeSignature P (set_prop ''sig'' s (scenario ''pong'')) keys
     = verifyEnvelopeSignature P (set_prop ''sig'' s (scenario ''ping'')) keys"
    by (simp add: verifyEnvelopeSignature_def verifyEnvelopeSignature_trace_def u
        canonical_scenario Get_set_prop)
  have b: "verifyEnvelopeSignature toy (set_prop ''sig'' (JString ping_token) (scenario ''pong''))
        [Public (CHR ''1'')] = Inr ()"
    by (simp add: verifyEnvelopeSignature_def verifyEnvelopeSignature_trace_def u
        canonical_scenario Get_set_prop)
      (simp add: toy_def toy_verify_def ping_token_def allowed_algorithms_def Get_def)
  from a b sign_ping show ?thesis by blast
qed

subsection \<open>C3: content sensitivity\<close>

text \<open>
  C3 says that two envelopes that differ in the value of one field, nested ones included,
  have different canonical bytes. In the code, the two envelopes of the scenario with the
  contents \<^verbatim>\<open>ping\<close> and \<^verbatim>\<open>pong\<close> differ and have the same canonical bytes.
\<close>

theorem body_content_insensitive:
  "scenario ''ping'' \<noteq> scenario ''pong''
   \<and> canonicalJson (JObject (scenario ''ping'')) = canonicalJson (JObject (scenario ''pong''))"
  by (simp add: canonical_scenario) (simp add: scenario_def)

subsection \<open>C4: missing signature\<close>

text \<open>
  C4 says that an envelope without \<^verbatim>\<open>sig\<close> fails at once, with an error kind of its own,
  before any key is tried. The code has one error for every failed verification and no
  test for a missing signature. As amended: for an envelope without \<^verbatim>\<open>sig\<close>, and a
  provider that rejects a token that is not a string, verification fails, but neither at
  once nor with a kind of its own: if canonicalization throws, that error is the result
  and no key is tried; otherwise the absent token is handed to every candidate key, in
  order, and the result is the generic error that is also the result when no key matches.
\<close>

theorem missing_sig_generic_failure:
  assumes rej: "rejects_undefined P" and nosig: "''sig'' \<notin> fst ` set env"
  shows "verifyEnvelopeSignature_trace P env keys =
           (case canonicalJson (JObject env) of
              Inl e \<Rightarrow> ([], Inl e)
            | Inr bytes \<Rightarrow> (keys, Inl ValidationFailed))"
proof (cases "canonicalJson (JObject env)")
  case (Inl e)
  with nosig show ?thesis
    by (simp add: verifyEnvelopeSignature_trace_def unsigned_id)
next
  case (Inr bytes)
  from nosig have sig: "Get env ''sig'' = JUndefined" by (rule Get_absent)
  from rej have "\<forall>k \<in> set keys. \<not> accepts P JUndefined (sha256_hex P bytes) k"
    by (simp add: rejects_undefined_def accepts_def)
  then have "try_keys P JUndefined (sha256_hex P bytes) keys = (keys, Inl ValidationFailed)"
    by (rule try_keys_none)
  with Inr nosig sig show ?thesis
    by (simp add: verifyEnvelopeSignature_trace_def unsigned_id)
qed

text \<open>The amended statement at the scenario's envelope, unsigned, with two candidate
  keys.\<close>

theorem missing_sig_generic_failure_witness:
  "rejects_undefined toy \<and> ''sig'' \<notin> fst ` set (scenario ''ping'')
   \<and> verifyEnvelopeSignature_trace toy (scenario ''ping'') [Public (CHR ''2''), Public (CHR ''1'')]
       = ([Public (CHR ''2''), Public (CHR ''1'')], Inl ValidationFailed)"
proof -
  have 1: "rejects_undefined toy" by (rule toy_rejects)
  have 2: "''sig'' \<notin> fst ` set (scenario ''ping'')" by (simp add: scenario_def)
  from missing_sig_generic_failure [OF 1 2, of "[Public (CHR ''2''), Public (CHR ''1'')]"] 1 2
  show ?thesis by (simp add: canonical_scenario)
qed

text \<open>C4 as stated fails: on the unsigned envelope both candidate keys are tried, and the
  error is the one that an envelope signed by a third key gets.\<close>

theorem missing_sig_counterexample:
  "keys_tried toy (scenario ''ping'') [Public (CHR ''2''), Public (CHR ''1'')]
     = [Public (CHR ''2''), Public (CHR ''1'')]
   \<and> verifyEnvelopeSignature toy (scenario ''ping'') [Public (CHR ''2''), Public (CHR ''1'')]
     = Inl ValidationFailed
   \<and> verifyEnvelopeSignature toy (set_prop ''sig'' (JString ''ES2563'') (scenario ''ping''))
        [Public (CHR ''2''), Public (CHR ''1'')] = Inl ValidationFailed"
proof -
  have u: "unsigned (scenario ''ping'') = scenario ''ping''"
    by (rule unsigned_id) (simp add: scenario_def)
  have u': "unsigned (set_prop ''sig'' (JString ''ES2563'') (scenario ''ping'')) = scenario ''ping''"
    by (rule unsigned_set_prop) (simp add: scenario_def)
  have g: "Get (scenario ''ping'') ''sig'' = JUndefined"
    by (simp add: scenario_def Get_def)
  show ?thesis
    by (simp add: keys_tried_def verifyEnvelopeSignature_def verifyEnvelopeSignature_trace_def
        u u' g canonical_scenario Get_set_prop toy_def toy_verify_def allowed_algorithms_def)
qed

subsection \<open>C5: round trip\<close>

text \<open>
  C5: for an unsigned envelope (one without a \<^verbatim>\<open>sig\<close> property, as its type says) and a
  valid key pair, if \<^verbatim>\<open>signEnvelope\<close> returns a token, then the envelope with that token
  attached as \<^verbatim>\<open>sig\<close> verifies against every list of candidate keys that holds the
  public key.
\<close>

theorem round_trip:
  assumes pair: "key_pair_ok P priv pub"
    and nosig: "''sig'' \<notin> fst ` set env"
    and signed: "signEnvelope P env priv = Inr token"
    and cand: "pub \<in> set keys"
  shows "verifyEnvelopeSignature P (set_prop ''sig'' (JString token) env) keys = Inr ()"
proof -
  from signed obtain bytes where
    bytes: "canonicalJson (JObject env) = Inr bytes" and
    tok: "SignJWT P [(''sha256'', JString (sha256_hex P bytes))] ''ES256'' priv = Some token"
    by (auto simp: signEnvelope_def split: sum.splits option.splits)
  have "''ES256'' \<in> set allowed_algorithms" by (simp add: allowed_algorithms_def)
  with pair tok have
    "jwtVerify P (JString token) pub allowed_algorithms
       = Some [(''sha256'', JString (sha256_hex P bytes))]"
    unfolding key_pair_ok_def by blast
  then have "accepts P (JString token) (sha256_hex P bytes) pub"
    by (simp add: accepts_def Get_def)
  with cand have "snd (try_keys P (JString token) (sha256_hex P bytes) keys) = Inr ()"
    by (rule try_keys_accepting)
  with bytes nosig show ?thesis
    by (simp add: verifyEnvelopeSignature_def verifyEnvelopeSignature_trace_def
        unsigned_set_prop Get_set_prop)
qed

theorem round_trip_witness:
  "key_pair_ok toy (Private (CHR ''1'')) (Public (CHR ''1''))
   \<and> ''sig'' \<notin> fst ` set (scenario ''ping'')
   \<and> signEnvelope toy (scenario ''ping'') (Private (CHR ''1'')) = Inr ping_token
   \<and> Public (CHR ''1'') \<in> set [Public (CHR ''2''), Public (CHR ''1'')]
   \<and> verifyEnvelopeSignature toy (set_prop ''sig'' (JString ping_token) (scenario ''ping''))
        [Public (CHR ''2''), Public (CHR ''1'')] = Inr ()"
proof -
  have 1: "key_pair_ok toy (Private (CHR ''1'')) (Public (CHR ''1''))" by (rule toy_pair)
  have 2: "''sig'' \<notin> fst ` set (scenario ''ping'')" by (simp add: scenario_def)
  have 3: "signEnvelope toy (scenario ''ping'') (Private (CHR ''1'')) = Inr ping_token"
    by (rule sign_ping)
  have 4: "Public (CHR ''1'') \<in> set [Public (CHR ''2''), Public (CHR ''1'')]" by simp
  from round_trip [OF 1 2 3 4] 1 2 3 4 show ?thesis by blast
qed

subsection \<open>C6: order of the candidate keys\<close>

text \<open>
  C6: once the unsigned envelope is canonicalized, the candidate keys are tried in the
  order given. If some key passes both checks (the token validates under it, and the
  digest in the payload is the recomputed one), the keys tried are exactly the keys before
  the first such key, in order, and then that key, and verification succeeds; a key under
  which the token validates with another digest is among the keys passed over. If no key
  passes both checks, every key is tried and verification fails.
\<close>

theorem candidate_order:
  "verifyEnvelopeSignature_trace P env keys =
     (case canonicalJson (JObject (unsigned env)) of
        Inl e \<Rightarrow> ([], Inl e)
      | Inr bytes \<Rightarrow>
          (case dropWhile (\<lambda>k. \<not> accepts P (Get env ''sig'') (sha256_hex P bytes) k) keys of
             [] \<Rightarrow> (keys, Inl ValidationFailed)
           | k # rest \<Rightarrow>
               (takeWhile (\<lambda>k. \<not> accepts P (Get env ''sig'') (sha256_hex P bytes) k) keys @ [k],
                Inr ())))"
  by (simp add: verifyEnvelopeSignature_trace_def try_keys_first_match split: sum.splits)

subsection \<open>C7: algorithm allow-list\<close>

text \<open>
  C7: the list of algorithms handed to the provider is fixed, \<^verbatim>\<open>ES256\<close>, \<^verbatim>\<open>EdDSA\<close> and
  \<^verbatim>\<open>RS256\<close>, the first of them an elliptic-curve scheme; with a provider that honours the
  list, an envelope whose token declares an algorithm outside it fails verification under
  every list of candidate keys.
\<close>

theorem allow_list_enforced:
  assumes hon: "honours_allow_list P alg_of"
    and out: "alg_of (Get env ''sig'') \<notin> Some ` set allowed_algorithms"
  shows "(\<exists>e. verifyEnvelopeSignature P env keys = Inl e)
         \<and> allowed_algorithms = [''ES256'', ''EdDSA'', ''RS256'']"
proof -
  have "\<not> accepts P (Get env ''sig'') expected k" for expected k
  proof (cases "jwtVerify P (Get env ''sig'') k allowed_algorithms")
    case None
    then show ?thesis by (simp add: accepts_def)
  next
    case (Some payload)
    with hon have "\<exists>a \<in> set allowed_algorithms. alg_of (Get env ''sig'') = Some a"
      unfolding honours_allow_list_def by blast
    with out show ?thesis by force
  qed
  then have "try_keys P (Get env ''sig'') expected keys = (keys, Inl ValidationFailed)"
    for expected
    by (intro try_keys_none) simp
  then show ?thesis
    by (simp add: verifyEnvelopeSignature_def verifyEnvelopeSignature_trace_def
        allowed_algorithms_def split: sum.splits)
qed

text \<open>A token that declares \<^verbatim>\<open>HS256\<close>, made for the toy key pair \<open>1\<close>.\<close>

theorem allow_list_enforced_witness:
  "honours_allow_list toy toy_alg
   \<and> toy_alg (Get (set_prop ''sig'' (JString ''HS2561digest'') (scenario ''ping'')) ''sig'')
       \<notin> Some ` set allowed_algorithms
   \<and> (\<exists>e. verifyEnvelopeSignature toy
             (set_prop ''sig'' (JString ''HS2561digest'') (scenario ''ping''))
             [Public (CHR ''1'')] = Inl e)
   \<and> allowed_algorithms = [''ES256'', ''EdDSA'', ''RS256'']"
proof -
  have 1: "honours_allow_list toy toy_alg" by (rule toy_honours)
  have 2: "toy_alg (Get (set_prop ''sig'' (JString ''HS2561digest'') (scenario ''ping'')) ''sig'')
       \<notin> Some ` set allowed_algorithms"
    by (simp add: Get_set_prop toy_alg_def allowed_algorithms_def)
  from allow_list_enforced [OF 1 2, of "[Public (CHR ''1'')]"] 1 2 show ?thesis by blast
qed

subsection \<open>C8: values that cannot be serialized\<close>

text \<open>
  C8 says that canonicalization fails with an encoding error on a value such as a
  non-finite number. The code has no such error and no such check. As amended: a
  non-finite number does not make canonicalization fail; \<^verbatim>\<open>NaN\<close>, \<^verbatim>\<open>Infinity\<close> and
  \<^verbatim>\<open>-Infinity\<close> are serialized as \<^verbatim>\<open>null\<close>. For every envelope that holds no bigint,
  \<^verbatim>\<open>canonicalJson\<close> returns bytes, and whenever it fails, on any value, it fails with a
  \<^verbatim>\<open>TypeError\<close>.
\<close>

theorem canonicalJson_failures:
  assumes "\<not> has_bigint (JObject env)"
  shows "(\<exists>bytes. canonicalJson (JObject env) = Inr bytes)
         \<and> SerializeJSONProperty K (JNumber NaN) = Inr (Some ''null'')
         \<and> SerializeJSONProperty K (JNumber Infinity) = Inr (Some ''null'')
         \<and> SerializeJSONProperty K (JNumber NegInfinity) = Inr (Some ''null'')
         \<and> (canonicalJson v = Inl TypeError \<or> (\<exists>bytes. canonicalJson v = Inr bytes))"
proof -
  from assms obtain r where
    r: "SerializeJSONProperty (property_list (sort (map fst env))) (JObject env) = Inr r"
    using serialize_total by blast
  then have "r \<noteq> None" by (auto split: sum.splits)
  with r have 1: "\<exists>bytes. canonicalJson (JObject env) = Inr bytes"
    by (auto simp: canonicalJson_def Object_keys_def JSON_stringify_def
        simp del: SerializeJSONProperty.simps)
  have 2: "canonicalJson v = Inl TypeError \<or> (\<exists>bytes. canonicalJson v = Inr bytes)"
    by (auto simp: canonicalJson_def Object_keys_def JSON_stringify_def
        simp del: SerializeJSONProperty.simps
        split: sum.splits option.splits jsvalue.splits dest: serialize_error)
  from 1 2 show ?thesis by simp
qed

text \<open>An envelope with a non-finite \<^verbatim>\<open>delta_window\<close> is canonicalized; one with a bigint
  under \<^verbatim>\<open>ext\<close> throws a \<^verbatim>\<open>TypeError\<close>.\<close>

theorem canonicalJson_failures_witness:
  "\<not> has_bigint (JObject [(''delta_window'', JNumber NaN)])
   \<and> (\<exists>bytes. canonicalJson (JObject [(''delta_window'', JNumber NaN)]) = Inr bytes)
   \<and> canonicalJson (JObject [(''ext'', JBigInt 1)]) = Inl TypeError"
proof -
  have 1: "\<not> has_bigint (JObject [(''delta_window'', JNumber NaN)])" by simp
  have 2: "canonicalJson (JObject [(''ext'', JBigInt 1)]) = Inl TypeError"
    by (simp add: canonicalJson_def Object_keys_def JSON_stringify_def Get_def)
  from canonicalJson_failures [OF 1] 1 2 show ?thesis by blast
qed

text \<open>C8 as stated fails: an envelope whose \<^verbatim>\<open>delta_window\<close> is \<^verbatim>\<open>NaN\<close> is canonicalized,
  with \<^verbatim>\<open>null\<close> in the place of the number.\<close>

theorem nonfinite_counterexample:
  \<open>canonicalJson (JObject [(''id'', JString ''a''), (''delta_window'', JNumber NaN)])
     = Inr ''{"delta_window":null,"id":"a"}''\<close>
  by (simp add: canonicalJson_def Object_keys_def JSON_stringify_def Get_def
      Buffer_from_def utf8_char_def QuoteJSONString_def quote_char_def)

subsection \<open>C9: determinism\<close>

text \<open>
  C9: \<^verbatim>\<open>canonicalJson\<close> is a function of its argument, and two values with the same
  content, that is, equal up to the order in which the properties of every object, nested
  ones included, were inserted, have the same canonical bytes (or throw the same error).
\<close>

theorem canonical_order_independent:
  "same_content v w \<Longrightarrow> canonicalJson v = canonicalJson w"
proof -
  assume sc: "same_content v w"
  have keys: "(case Object_keys v of Inl e \<Rightarrow> Inl e | Inr ks \<Rightarrow> Inr (property_list (sort ks)))
            = (case Object_keys w of Inl e \<Rightarrow> Inl e | Inr ks \<Rightarrow> Inr (property_list (sort ks)))"
  proof (cases v)
    case (JArray xs)
    with sc obtain ys where "w = JArray ys" "length xs = length ys"
      by (cases w) (auto dest: list_all2_lengthD)
    with JArray show ?thesis by (simp add: Object_keys_def)
  next
    case (JObject ps)
    with sc obtain qs where "w = JObject qs" "fst ` set ps = fst ` set qs"
      by (cases w) auto
    with JObject show ?thesis by (simp add: Object_keys_def property_list_sort_set)
  qed (use sc in auto)
  show ?thesis
    using keys serialize_same_content [OF sc]
    by (auto simp: canonicalJson_def JSON_stringify_def split: sum.splits)
qed

theorem canonical_order_independent_witness:
  "same_content ordered_a ordered_b \<and> canonicalJson ordered_a = canonicalJson ordered_b"
proof -
  have 1: "same_content ordered_a ordered_b"
    by (simp add: ordered_a_def ordered_b_def Get_def insert_commute)
  from canonical_order_independent [OF 1] 1 show ?thesis by blast
qed

subsection \<open>C10: nested properties are filtered by the top-level names\<close>

text \<open>
  C10: the canonical bytes of an envelope, and so the token that \<^verbatim>\<open>signEnvelope\<close> makes,
  are those of the envelope in which every nested object, at every depth, has lost the
  properties whose name is not the name of a top-level property; in that envelope every
  property name is a top-level name.
\<close>

theorem nested_key_filter:
  "canonicalJson (JObject env) = canonicalJson (JObject (listed_only env))
   \<and> signEnvelope P env key = signEnvelope P (listed_only env) key
   \<and> property_names (JObject (listed_only env)) \<subseteq> fst ` set env"
proof -
  let ?S = "fst ` set env"
  have f: "filter (\<lambda>p. fst p \<in> ?S) env = env" by (induction env) auto
  then have kl: "keep_listed ?S (JObject env) = JObject (listed_only env)"
    by (simp add: listed_only_def)
  have k: "map fst (listed_only env) = map fst env"
    by (simp add: listed_only_def comp_def)
  have "SerializeJSONProperty (property_list (sort (map fst env))) (keep_listed ?S (JObject env))
        = SerializeJSONProperty (property_list (sort (map fst env))) (JObject env)"
    by (rule serialize_keep_listed) simp
  then have c: "canonicalJson (JObject env) = canonicalJson (JObject (listed_only env))"
    unfolding kl
    by (simp add: canonicalJson_def Object_keys_def JSON_stringify_def k
        del: SerializeJSONProperty.simps)
  have n: "property_names (JObject (listed_only env)) \<subseteq> ?S"
    using property_names_keep_listed [of ?S "JObject env"] unfolding kl .
  from c n show ?thesis by (simp add: signEnvelope_def)
qed

end
